theory Spec2Isabelle
  imports Main
begin

section \<open>Python values and the library functions that merge.py calls\<close>

text \<open>
  A cell of a spreadsheet, an argument of the merge functions or an item of a list is a
  Python object. \<open>PNone\<close> is \<open>None\<close>, \<open>PNaN\<close> the float NaN that pandas puts in an empty
  cell, \<open>PStr\<close> a \<open>str\<close>, \<open>PList\<close> a \<open>list\<close>, \<open>PTuple\<close> a \<open>tuple\<close>. \<open>PObj s\<close> stands for
  any other object (an int, a float that is not NaN, a bool, a date, a dict, ...): one
  that is not missing, not a string and not a sequence; \<open>s\<close> is the text \<open>str()\<close>
  gives for it. A \<open>string\<close> is the list of the code points of the Python string
  (code points up to 255).
\<close>

datatype pyval =
    PNone
  | PNaN
  | PStr string
  | PList "pyval list"
  | PTuple "pyval list"
  | PObj string

datatype error = ValueError | KeyError

text \<open>
  What merge.py takes from the Python installation and does not define itself:
  \<open>literal_eval s\<close> is the value of \<open>ast.literal_eval(s)\<close>, \<open>None\<close> when it raises;
  \<open>str_seq v\<close> is \<open>str(v)\<close> for a list or tuple \<open>v\<close>; \<open>empty_truth\<close> is the outcome
  of \<open>bool()\<close> on an empty NumPy array (\<open>False\<close> with a warning up to NumPy 2.1, a
  ValueError from NumPy 2.2 on).
\<close>

record pyenv =
  literal_eval :: "string \<Rightarrow> pyval option"
  str_seq :: "pyval \<Rightarrow> string"
  empty_truth :: "error + bool"

subsection \<open>str, strip, split and join\<close>

definition py_str :: "pyenv \<Rightarrow> pyval \<Rightarrow> string" where
  "py_str E v =
     (case v of
        PNone \<Rightarrow> ''None''
      | PNaN \<Rightarrow> ''nan''
      | PStr s \<Rightarrow> s
      | PObj s \<Rightarrow> s
      | _ \<Rightarrow> str_seq E v)"

text \<open>The code points below 256 that \<open>str.strip()\<close> removes.\<close>

definition py_isspace :: "char \<Rightarrow> bool" where
  "py_isspace c \<longleftrightarrow>
     (of_char c :: nat) \<in> {9, 10, 11, 12, 13, 28, 29, 30, 31, 32, 133, 160}"

definition strip :: "string \<Rightarrow> string" where
  "strip s = rev (dropWhile py_isspace (rev (dropWhile py_isspace s)))"

text \<open>\<open>s.split(',')\<close>: one piece more than there are commas.\<close>

fun split_comma :: "string \<Rightarrow> string list" where
  "split_comma [] = [[]]"
| "split_comma (c # cs) =
     (if c = CHR '','' then [] # split_comma cs
      else (case split_comma cs of
              [] \<Rightarrow> [[c]]
            | p # ps \<Rightarrow> (c # p) # ps))"

text \<open>\<open>', '.join(xs)\<close>.\<close>

fun join_comma :: "string list \<Rightarrow> string" where
  "join_comma [] = []"
| "join_comma [x] = x"
| "join_comma (x # y # ys) = x @ '', '' @ join_comma (y # ys)"

subsection \<open>pandas.isna in a condition\<close>

text \<open>
  \<open>pd.isna\<close> answers with a bool for a scalar and with an array of bools, of the shape
  of \<open>np.asarray(value, dtype=object)\<close>, for a list. NumPy takes as dimensions the
  lengths on which all the nested sequences agree.
\<close>

fun common_prefix :: "nat list \<Rightarrow> nat list \<Rightarrow> nat list" where
  "common_prefix (a # as) (b # bs) = (if a = b then a # common_prefix as bs else [])"
| "common_prefix _ _ = []"

fun np_shape :: "pyval \<Rightarrow> nat list" where
  "np_shape (PList xs) =
     length xs # (case map np_shape xs of [] \<Rightarrow> [] | s # ss \<Rightarrow> fold common_prefix ss s)"
| "np_shape (PTuple xs) =
     length xs # (case map np_shape xs of [] \<Rightarrow> [] | s # ss \<Rightarrow> fold common_prefix ss s)"
| "np_shape _ = []"

text \<open>The only element of an array with one element: \<open>n\<close> dimensions down.\<close>

fun np_item :: "nat \<Rightarrow> pyval \<Rightarrow> pyval" where
  "np_item (Suc n) (PList (x # xs)) = np_item n x"
| "np_item (Suc n) (PTuple (x # xs)) = np_item n x"
| "np_item _ v = v"

definition checknull :: "pyval \<Rightarrow> bool" where
  "checknull v \<longleftrightarrow> v = PNone \<or> v = PNaN"

text \<open>
  \<open>if pd.isna(value) or ...\<close> asks for the truth value of the answer. For an array
  with more than one element that raises ValueError.
\<close>

definition isna_truth :: "pyenv \<Rightarrow> pyval \<Rightarrow> error + bool" where
  "isna_truth E v =
     (case v of
        PList xs \<Rightarrow>
          (let shape = np_shape v; n = prod_list shape in
           if n = 0 then empty_truth E
           else if n = 1 then Inr (checknull (np_item (length shape) v))
           else Inl ValueError)
      | _ \<Rightarrow> Inr (checknull v))"

section \<open>The Value Normalizer\<close>

definition parse_list_column :: "pyenv \<Rightarrow> pyval \<Rightarrow> error + pyval list" where
  "parse_list_column E v =
     (case isna_truth E v of
        Inl e \<Rightarrow> Inl e
      | Inr na \<Rightarrow>
          if na \<or> v = PStr '''' \<or> v = PStr ''---'' then Inr []
          else (case v of
                  PList xs \<Rightarrow> Inr xs
                | PStr s \<Rightarrow>
                    (case literal_eval E s of
                       Some (PList ys) \<Rightarrow> Inr ys
                     | Some parsed \<Rightarrow> Inr [parsed]
                     | None \<Rightarrow> Inr (if strip s \<noteq> [] then [v] else []))
                | _ \<Rightarrow> Inr []))"

section \<open>The Field Merger for list fields\<close>

text \<open>
  The body of both loops over the items of one normalized value: \<open>result\<close> and \<open>seen\<close>
  are the two local variables of \<open>merge_list_columns\<close>.
\<close>

definition item_str :: "pyenv \<Rightarrow> pyval \<Rightarrow> string" where
  "item_str E item = strip (py_str E item)"

fun scan_items :: "pyenv \<Rightarrow> pyval list \<Rightarrow> pyval list \<times> string set \<Rightarrow> pyval list \<times> string set" where
  "scan_items E [] st = st"
| "scan_items E (item # items) (result, seen) =
     (if item_str E item \<noteq> [] \<and> item_str E item \<notin> seen
      then scan_items E items (result @ [item], insert (item_str E item) seen)
      else scan_items E items (result, seen))"

text \<open>The loop over \<open>other_vals\<close>; an exception of the normalizer ends it.\<close>

fun scan_vals :: "pyenv \<Rightarrow> pyval list \<Rightarrow> pyval list \<times> string set \<Rightarrow> error + pyval list \<times> string set" where
  "scan_vals E [] st = Inr st"
| "scan_vals E (val # vals) st =
     (case parse_list_column E val of
        Inl e \<Rightarrow> Inl e
      | Inr items \<Rightarrow> scan_vals E vals (scan_items E items st))"

definition merge_list_columns :: "pyenv \<Rightarrow> pyval \<Rightarrow> pyval list \<Rightarrow> error + pyval list" where
  "merge_list_columns E main_val other_vals =
     (case parse_list_column E main_val of
        Inl e \<Rightarrow> Inl e
      | Inr items \<Rightarrow>
          (case scan_vals E other_vals (scan_items E items ([], {})) of
             Inl e \<Rightarrow> Inl e
           | Inr (result, seen) \<Rightarrow> Inr (if result \<noteq> [] then result else [])))"

section \<open>The Field Merger for the sentiment field\<close>

fun sentiment_items :: "string list \<Rightarrow> string list \<times> string set \<Rightarrow> string list \<times> string set" where
  "sentiment_items [] st = st"
| "sentiment_items (item # items) (result, seen) =
     (if item \<noteq> [] \<and> item \<noteq> ''neutral'' \<and> item \<notin> seen
      then sentiment_items items (result @ [item], insert item seen)
      else sentiment_items items (result, seen))"

fun sentiment_vals :: "pyenv \<Rightarrow> pyval list \<Rightarrow> string list \<times> string set \<Rightarrow> error + string list \<times> string set" where
  "sentiment_vals E [] st = Inr st"
| "sentiment_vals E (val # vals) st =
     (case isna_truth E val of
        Inl e \<Rightarrow> Inl e
      | Inr na \<Rightarrow>
          if na \<or> val = PStr '''' \<or> val = PStr ''neutral'' then sentiment_vals E vals st
          else sentiment_vals E vals
                 (sentiment_items (map strip (split_comma (py_str E val))) st))"

definition merge_sentiment_columns :: "pyenv \<Rightarrow> pyval \<Rightarrow> pyval list \<Rightarrow> error + string" where
  "merge_sentiment_columns E main_val other_vals =
     (case sentiment_vals E (main_val # other_vals) ([], {}) of
        Inl e \<Rightarrow> Inl e
      | Inr (result, seen) \<Rightarrow> Inr (if result \<noteq> [] then join_comma result else ''''))"

section \<open>Row orchestration\<close>










section \<open>Notions used to state the properties\<close>

text \<open>
  \<open>first_seen f S xs\<close> keeps, in order, the items of \<open>xs\<close> whose key \<open>f x\<close> is not in
  \<open>S\<close> and has not occurred earlier in \<open>xs\<close>; \<open>dedup\<close> keeps the first occurrence of
  each item.
\<close>

fun first_seen :: "('a \<Rightarrow> 'k) \<Rightarrow> 'k set \<Rightarrow> 'a list \<Rightarrow> 'a list" where
  "first_seen f S [] = []"
| "first_seen f S (x # xs) =
     (if f x \<in> S then first_seen f S xs else x # first_seen f (insert (f x) S) xs)"

definition dedup :: "'a list \<Rightarrow> 'a list" where
  "dedup xs = first_seen (\<lambda>x. x) {} xs"

text \<open>
  The sentiment merger as the specification words it: a value is skipped when it is
  missing, empty or \<open>neutral\<close>; the others are split on commas and trimmed; the empty and
  the \<open>neutral\<close> pieces go; duplicates go; the rest is joined.
\<close>

definition skipped :: "pyenv \<Rightarrow> pyval \<Rightarrow> bool" where
  "skipped E val \<longleftrightarrow>
     isna_truth E val = Inr True \<or> val = PStr '''' \<or> val = PStr ''neutral''"

definition pieces :: "pyenv \<Rightarrow> pyval \<Rightarrow> string list" where
  "pieces E val = map strip (split_comma (py_str E val))"

definition merge_sentiments_spec :: "pyenv \<Rightarrow> pyval list \<Rightarrow> string" where
  "merge_sentiments_spec E vals =
     join_comma (dedup (filter (\<lambda>p. p \<noteq> [] \<and> p \<noteq> ''neutral'')
       (concat (map (pieces E) (filter (\<lambda>val. \<not> skipped E val) vals)))))"

text \<open>What holds of every label that reaches \<open>result\<close> in the sentiment merger.\<close>

definition label_ok :: "string \<Rightarrow> bool" where
  "label_ok r \<longleftrightarrow> r \<noteq> [] \<and> r \<noteq> ''neutral'' \<and> strip r = r \<and> CHR '','' \<notin> set r"

definition sentiment_inv :: "string list \<times> string set \<Rightarrow> bool" where
  "sentiment_inv st \<longleftrightarrow>
     snd st = set (fst st) \<and> distinct (fst st) \<and> (\<forall>r\<in>set (fst st). label_ok r)"

section \<open>A Python installation for the worked examples\<close>

text \<open>
  The examples below run in \<open>example_env\<close>. Its \<open>literal_eval\<close> holds what Python
  answers on the two list literals listed, and raises on the other strings of the
  examples (\<open>Bob\<close>, \<open>Alice \<close>, \<open>New York \<close>, \<open>chair\<close>, \<open>---\<close>: none is a Python
  literal). No example reaches \<open>str_seq\<close> or \<open>empty_truth\<close>.
\<close>

definition example_env :: pyenv where
  "example_env =
     \<lparr>literal_eval =
        map_of [(''['Alice']'', PList [PStr ''Alice'']),
                (''['Alice', 'Bob']'', PList [PStr ''Alice'', PStr ''Bob''])],
      str_seq = (\<lambda>v. []),
      empty_truth = Inr False\<rparr>"




section \<open>Auxiliary facts\<close>

lemma dropWhile_strip_front: "dropWhile py_isspace (strip s) = strip s"
proof (cases "strip s")
  case Nil then show ?thesis by simp
next
  case (Cons c cs)
  let ?t = "dropWhile py_isspace s"
  have "strip s = rev (dropWhile py_isspace (rev ?t))" by (simp add: strip_def)
  then have pre: "\<exists>zs. ?t = strip s @ zs"
    by (metis rev_append rev_rev_ident takeWhile_dropWhile_id)
  then obtain zs where zs: "?t = (c # cs) @ zs" using Cons by auto
  then have "hd ?t = c" by (metis append_Cons list.sel(1))
  moreover have "?t \<noteq> []" using zs by auto
  ultimately have "\<not> py_isspace c" using hd_dropWhile by metis
  then show ?thesis using Cons by simp
qed

lemma strip_idem: "strip (strip s) = strip s"
proof -
  have "rev (strip s) = dropWhile py_isspace (rev (dropWhile py_isspace s))"
    by (simp add: strip_def)
  then have "dropWhile py_isspace (rev (strip s)) = rev (strip s)"
    by (metis dropWhile_idem)
  then show ?thesis
    using dropWhile_strip_front [of s] unfolding strip_def [of "strip s"] by simp
qed

lemma strip_space_Cons: "py_isspace c \<Longrightarrow> strip (c # s) = strip s"
  by (simp add: strip_def)

lemma set_strip: "set (strip s) \<subseteq> set s"
  unfolding strip_def
  by (metis set_dropWhileD set_rev subsetI)

lemma space_isspace: "py_isspace CHR '' ''"
  by (simp add: py_isspace_def)

lemma split_comma_not_Nil: "split_comma s \<noteq> []"
  by (induction s) (auto split: list.splits)

lemma split_comma_no_comma: "CHR '','' \<notin> set s \<Longrightarrow> split_comma s = [s]"
  by (induction s) auto

lemma split_comma_append:
  "CHR '','' \<notin> set a \<Longrightarrow> split_comma (a @ CHR '','' # b) = a # split_comma b"
  by (induction a) auto

lemma split_comma_pieces: "p \<in> set (split_comma s) \<Longrightarrow> CHR '','' \<notin> set p"
proof (induction s arbitrary: p)
  case Nil then show ?case by simp
next
  case (Cons c cs)
  then show ?case
    by (cases "split_comma cs") (auto simp: split_comma_not_Nil split: if_splits)
qed

lemma split_join_comma:
  "xs \<noteq> [] \<Longrightarrow> \<forall>x\<in>set xs. CHR '','' \<notin> set x \<Longrightarrow>
   split_comma (join_comma xs) = hd xs # map ((#) CHR '' '') (tl xs)"
proof (induction xs rule: join_comma.induct)
  case 1 then show ?case by simp
next
  case (2 x) then show ?case by (simp add: split_comma_no_comma)
next
  case (3 x y ys)
  have "split_comma (x @ CHR '','' # CHR '' '' # join_comma (y # ys)) =
        x # split_comma (CHR '' '' # join_comma (y # ys))"
    using 3 by (simp add: split_comma_append)
  moreover have "split_comma (join_comma (y # ys)) = y # map ((#) CHR '' '') ys"
    using 3 by simp
  ultimately show ?case by simp
qed

lemma first_seen_keys: "f ` set (first_seen f S xs) = f ` set xs - S"
  by (induction xs arbitrary: S) auto

lemma first_seen_distinct: "distinct (map f (first_seen f S xs))"
proof (induction xs arbitrary: S)
  case Nil then show ?case by simp
next
  case (Cons x xs)
  have "f x \<notin> f ` set (first_seen f (insert (f x) S) xs)"
    by (simp add: first_seen_keys)
  with Cons show ?case by simp
qed

lemma first_seen_append:
  "first_seen f S (xs @ ys) = first_seen f S xs @ first_seen f (S \<union> f ` set xs) ys"
proof (induction xs arbitrary: S)
  case Nil then show ?case by simp
next
  case (Cons x xs)
  have "f x \<in> S \<Longrightarrow> S \<union> f ` set (x # xs) = S \<union> f ` set xs" by auto
  moreover have "insert (f x) S \<union> f ` set xs = S \<union> f ` set (x # xs)" by auto
  ultimately show ?case using Cons by simp
qed

lemma first_seen_find:
  "x \<in> set (first_seen f S xs) \<Longrightarrow> find (\<lambda>y. f y = f x) xs = Some x"
proof (induction xs arbitrary: S)
  case Nil then show ?case by simp
next
  case (Cons a xs)
  show ?case
  proof (cases "f a = f x")
    case True
    have "f x \<notin> f ` set (first_seen f (insert (f a) S) xs)"
      using True by (simp add: first_seen_keys)
    then have "x \<notin> set (first_seen f (insert (f a) S) xs)" by blast
    moreover have "f a \<in> S \<Longrightarrow> x \<notin> set (first_seen f S xs)"
    proof
      assume "f a \<in> S" and "x \<in> set (first_seen f S xs)"
      then have "f x \<in> f ` set xs - S" using first_seen_keys [of f S xs] by blast
      then show False using True \<open>f a \<in> S\<close> by simp
    qed
    ultimately have "x = a" using Cons.prems by (auto split: if_splits)
    then show ?thesis by simp
  next
    case False
    then have "x \<in> set (first_seen f S xs) \<or> x \<in> set (first_seen f (insert (f a) S) xs)"
      using Cons.prems by (auto split: if_splits)
    then have "find (\<lambda>y. f y = f x) xs = Some x" using Cons.IH by blast
    then show ?thesis using False by simp
  qed
qed

lemma first_seen_id:
  "distinct (map f xs) \<Longrightarrow> f ` set xs \<inter> S = {} \<Longrightarrow> first_seen f S xs = xs"
proof (induction xs arbitrary: S)
  case Nil then show ?case by simp
next
  case (Cons x xs)
  then have "f ` set xs \<inter> insert (f x) S = {}" by auto
  with Cons show ?case by auto
qed

lemma scan_items_first_seen:
  "scan_items E items (result, seen) =
     (result @ first_seen (item_str E) (insert [] seen) items,
      seen \<union> item_str E ` set (first_seen (item_str E) (insert [] seen) items))"
proof (induction items arbitrary: result seen)
  case Nil then show ?case by simp
next
  case (Cons item items)
  show ?case
  proof (cases "item_str E item \<noteq> [] \<and> item_str E item \<notin> seen")
    case True
    then have "scan_items E (item # items) (result, seen) =
        scan_items E items (result @ [item], insert (item_str E item) seen)" by simp
    also have "\<dots> = ((result @ [item]) @ first_seen (item_str E) (insert [] (insert (item_str E item) seen)) items,
       insert (item_str E item) seen \<union> item_str E ` set (first_seen (item_str E) (insert [] (insert (item_str E item) seen)) items))"
      by (rule Cons.IH)
    finally show ?thesis using True by (simp add: insert_commute)
  next
    case False
    then have "scan_items E (item # items) (result, seen) = scan_items E items (result, seen)"
      by auto
    then show ?thesis using False Cons.IH [of result seen] by auto
  qed
qed

lemma scan_items_append:
  "scan_items E (xs @ ys) st = scan_items E ys (scan_items E xs st)"
proof (induction xs arbitrary: st)
  case Nil then show ?case by simp
next
  case (Cons x xs)
  obtain result seen where "st = (result, seen)" by (cases st)
  with Cons show ?case by simp
qed

lemma scan_vals_concat:
  "list_all2 (\<lambda>v ys. parse_list_column E v = Inr ys) vals yss \<Longrightarrow>
   scan_vals E vals st = Inr (scan_items E (concat yss) st)"
proof (induction vals arbitrary: yss st)
  case Nil then show ?case by simp
next
  case (Cons v vals)
  then obtain ys yss' where y: "yss = ys # yss'" "parse_list_column E v = Inr ys"
      "list_all2 (\<lambda>v ys. parse_list_column E v = Inr ys) vals yss'"
    by (auto simp: list_all2_Cons1)
  then show ?case using Cons.IH [OF y(3)] by (simp add: scan_items_append)
qed

lemma merge_list_columns_first_seen:
  assumes "parse_list_column E main_val = Inr xs"
    and "list_all2 (\<lambda>v ys. parse_list_column E v = Inr ys) other_vals yss"
  shows "merge_list_columns E main_val other_vals =
           Inr (first_seen (item_str E) {[]} (xs @ concat yss))"
proof -
  have "scan_vals E other_vals (scan_items E xs ([], {})) =
          Inr (scan_items E (xs @ concat yss) ([], {}))"
    using scan_vals_concat [OF assms(2)] by (simp add: scan_items_append)
  then show ?thesis
    using assms(1) by (simp add: merge_list_columns_def scan_items_first_seen)
qed

lemma first_seen_filter:
  "first_seen f S xs = first_seen f {} (filter (\<lambda>x. f x \<notin> S) xs)"
proof -
  have "first_seen f (S \<union> T) xs = first_seen f T (filter (\<lambda>x. f x \<notin> S) xs)" for T
  proof (induction xs arbitrary: T)
    case Nil then show ?case by simp
  next
    case (Cons x xs)
    have "insert (f x) (S \<union> T) = S \<union> insert (f x) T" by auto
    then have "first_seen f (insert (f x) (S \<union> T)) xs =
        first_seen f (insert (f x) T) (filter (\<lambda>x. f x \<notin> S) xs)"
      using Cons [of "insert (f x) T"] by simp
    then show ?case using Cons [of T] by simp
  qed
  from this [of "{}"] show ?thesis by simp
qed

lemma sentiment_items_first_seen:
  "sentiment_items items (result, seen) =
     (result @ first_seen (\<lambda>x. x) (seen \<union> {[], ''neutral''}) items,
      seen \<union> set (first_seen (\<lambda>x. x) (seen \<union> {[], ''neutral''}) items))"
proof (induction items arbitrary: result seen)
  case Nil then show ?case by simp
next
  case (Cons item items)
  show ?case
  proof (cases "item \<noteq> [] \<and> item \<noteq> ''neutral'' \<and> item \<notin> seen")
    case True
    then have "sentiment_items (item # items) (result, seen) =
        sentiment_items items (result @ [item], insert item seen)" by simp
    also have "\<dots> = ((result @ [item]) @ first_seen (\<lambda>x. x) (insert item seen \<union> {[], ''neutral''}) items,
       insert item seen \<union> set (first_seen (\<lambda>x. x) (insert item seen \<union> {[], ''neutral''}) items))"
      by (rule Cons.IH)
    also have "insert item seen \<union> {[], ''neutral''} = insert item (seen \<union> {[], ''neutral''})"
      by auto
    finally show ?thesis using True by simp
  next
    case False
    then have "sentiment_items (item # items) (result, seen) = sentiment_items items (result, seen)"
      by auto
    then show ?thesis using False Cons.IH [of result seen] by auto
  qed
qed

lemma sentiment_items_append:
  "sentiment_items (xs @ ys) st = sentiment_items ys (sentiment_items xs st)"
proof (induction xs arbitrary: st)
  case Nil then show ?case by simp
next
  case (Cons x xs)
  obtain result seen where "st = (result, seen)" by (cases st)
  with Cons show ?case by simp
qed

lemma sentiment_vals_pieces:
  "\<forall>val\<in>set vals. \<exists>na. isna_truth E val = Inr na \<Longrightarrow>
   sentiment_vals E vals st =
     Inr (sentiment_items (concat (map (pieces E) (filter (\<lambda>val. \<not> skipped E val) vals))) st)"
proof (induction vals arbitrary: st)
  case Nil then show ?case by simp
next
  case (Cons v vals)
  then obtain na where na: "isna_truth E v = Inr na" by auto
  have IH: "\<And>st. sentiment_vals E vals st =
     Inr (sentiment_items (concat (map (pieces E) (filter (\<lambda>val. \<not> skipped E val) vals))) st)"
    using Cons by simp
  show ?case
  proof (cases "skipped E v")
    case True
    then have "na \<or> v = PStr '''' \<or> v = PStr ''neutral''" using na by (simp add: skipped_def)
    then show ?thesis using na True IH by auto
  next
    case False
    then have "\<not> (na \<or> v = PStr '''' \<or> v = PStr ''neutral'')" using na by (simp add: skipped_def)
    then have "sentiment_vals E (v # vals) st =
        sentiment_vals E vals (sentiment_items (pieces E v) st)"
      using na by (simp add: pieces_def)
    then show ?thesis using False IH by (simp add: sentiment_items_append)
  qed
qed

lemma merge_sentiment_columns_neutral:
  "merge_sentiment_columns E (PStr ''neutral'') [PStr ''neutral''] = Inr ''''"
  by (simp add: merge_sentiment_columns_def isna_truth_def checknull_def)

lemma merge_sentiment_columns_happy:
  "merge_sentiment_columns E (PStr ''happy, sad'') [PStr ''sad, joy''] = Inr ''happy, sad, joy''"
  by (simp add: merge_sentiment_columns_def isna_truth_def checknull_def py_str_def
      strip_def py_isspace_def)

lemma pieces_trimmed: "p \<in> set (pieces E val) \<Longrightarrow> strip p = p \<and> CHR '','' \<notin> set p"
proof -
  assume "p \<in> set (pieces E val)"
  then obtain q where q: "q \<in> set (split_comma (py_str E val))" "p = strip q"
    by (auto simp: pieces_def)
  have "CHR '','' \<notin> set q" using q(1) by (rule split_comma_pieces)
  then have "CHR '','' \<notin> set p" using q(2) set_strip [of q] by auto
  then show ?thesis using q(2) by (simp add: strip_idem)
qed

lemma sentiment_items_inv:
  "sentiment_inv st \<Longrightarrow> \<forall>p\<in>set items. strip p = p \<and> CHR '','' \<notin> set p \<Longrightarrow>
   sentiment_inv (sentiment_items items st)"
proof (induction items arbitrary: st)
  case Nil then show ?case by simp
next
  case (Cons item items)
  obtain result seen where st: "st = (result, seen)" by (cases st)
  show ?case
  proof (cases "item \<noteq> [] \<and> item \<noteq> ''neutral'' \<and> item \<notin> seen")
    case True
    have "sentiment_inv (result @ [item], insert item seen)"
      using Cons.prems True st by (auto simp: sentiment_inv_def label_ok_def)
    then have "sentiment_inv (sentiment_items items (result @ [item], insert item seen))"
      using Cons.prems(2) by (intro Cons.IH) simp_all
    then show ?thesis using True st by simp
  next
    case False
    have "sentiment_inv (sentiment_items items (result, seen))"
      using Cons.prems st by (intro Cons.IH) simp_all
    then show ?thesis using False st by auto
  qed
qed

lemma sentiment_vals_inv:
  "sentiment_vals E vals st = Inr st' \<Longrightarrow> sentiment_inv st \<Longrightarrow> sentiment_inv st'"
proof (induction vals arbitrary: st)
  case Nil then show ?case by simp
next
  case (Cons v vals)
  then obtain na where na: "isna_truth E v = Inr na"
    by (cases "isna_truth E v") auto
  show ?case
  proof (cases "na \<or> v = PStr '''' \<or> v = PStr ''neutral''")
    case True
    then have "sentiment_vals E vals st = Inr st'" using Cons.prems(1) na by auto
    then show ?thesis using Cons.IH Cons.prems(2) by blast
  next
    case False
    then have "sentiment_vals E vals (sentiment_items (pieces E v) st) = Inr st'"
      using Cons.prems(1) na by (simp add: pieces_def)
    moreover have "sentiment_inv (sentiment_items (pieces E v) st)"
      using Cons.prems(2) pieces_trimmed by (intro sentiment_items_inv) auto
    ultimately show ?thesis using Cons.IH by blast
  qed
qed

lemma join_comma_not_Nil: "xs \<noteq> [] \<Longrightarrow> \<forall>x\<in>set xs. x \<noteq> [] \<Longrightarrow> join_comma xs \<noteq> []"
  by (induction xs rule: join_comma.induct) auto

lemma join_comma_not_neutral:
  "\<forall>x\<in>set xs. x \<noteq> ''neutral'' \<Longrightarrow> xs \<noteq> [] \<Longrightarrow> join_comma xs \<noteq> ''neutral''"
proof (cases xs rule: join_comma.cases)
  case 1 then show "xs \<noteq> [] \<Longrightarrow> ?thesis" by simp
next
  case (2 x) then show "\<forall>x\<in>set xs. x \<noteq> ''neutral'' \<Longrightarrow> ?thesis" by simp
next
  case (3 x y ys)
  have "CHR '','' \<in> set (join_comma (x # y # ys))" by simp
  moreover have "CHR '','' \<notin> set ''neutral''" by simp
  ultimately show ?thesis using 3 by metis
qed

lemma strip_trimmed_space: "strip r = r \<Longrightarrow> strip (CHR '' '' # r) = r"
  by (simp add: strip_space_Cons space_isspace)

lemma pieces_join_comma:
  assumes "xs \<noteq> []" and "\<forall>r\<in>set xs. label_ok r"
  shows "pieces E (PStr (join_comma xs)) = xs"
proof -
  have "split_comma (join_comma xs) = hd xs # map ((#) CHR '' '') (tl xs)"
    using assms by (intro split_join_comma) (auto simp: label_ok_def)
  then have "pieces E (PStr (join_comma xs)) = strip (hd xs) # map (\<lambda>r. strip (CHR '' '' # r)) (tl xs)"
    by (simp add: pieces_def py_str_def comp_def)
  also have "\<dots> = hd xs # map (\<lambda>r. r) (tl xs)"
  proof -
    have "strip (hd xs) = hd xs" using assms by (cases xs) (auto simp: label_ok_def)
    moreover have "\<forall>r\<in>set (tl xs). strip (CHR '' '' # r) = r"
      using assms by (cases xs) (auto simp: label_ok_def strip_trimmed_space)
    then have "map (\<lambda>r. strip (CHR '' '' # r)) (tl xs) = map (\<lambda>r. r) (tl xs)"
      by (intro map_cong) simp_all
    ultimately show ?thesis by simp
  qed
  finally show ?thesis using assms(1) by simp
qed

lemma isna_truth_PStr: "isna_truth E (PStr s) = Inr False"
  by (simp add: isna_truth_def checknull_def)

section \<open>The claims\<close>

subsection \<open>The normalizer on native lists\<close>

lemma parse_list_column_returns:
  "(\<forall>xs. v \<noteq> PList xs) \<Longrightarrow> \<exists>items. parse_list_column E v = Inr items"
  by (cases v) (auto simp: parse_list_column_def isna_truth_def split: option.splits pyval.splits)

text \<open>
  C1. The claim: for every input, a native list of any length and contents included,
  \<open>parse_list_column\<close> returns a sequence and raises nothing. The code asks
  \<open>pd.isna(value)\<close> for its truth value before it looks at the type of \<open>value\<close>; for a
  list of two strings that is the truth value of an array of two bools, and the call
  ends in a ValueError instead of a sequence.
\<close>

theorem parse_list_column_raises:
  "parse_list_column E (PList [PStr ''Alice'', PStr ''Bob'']) = Inl ValueError"
  by (simp add: parse_list_column_def isna_truth_def)

text \<open>
  C2. The claim: normalizing twice gives the same sequence as normalizing once. The text
  of a list of two names normalizes to the list of the two names; normalizing that list
  raises ValueError.
\<close>

theorem parse_list_column_twice:
  "parse_list_column example_env (PStr ''['Alice', 'Bob']'') = Inr [PStr ''Alice'', PStr ''Bob'']
   \<and> parse_list_column example_env (PList [PStr ''Alice'', PStr ''Bob'']) = Inl ValueError"
  by (simp add: parse_list_column_def isna_truth_def checknull_def example_env_def)

text \<open>
  C7. The claim: a native list comes back unchanged. A list of two items raises
  ValueError, and the list that holds only \<open>None\<close> comes back as the empty list.
\<close>

theorem parse_list_column_list_changed:
  "parse_list_column E (PList [PStr ''chair'', PStr ''table'']) = Inl ValueError
   \<and> parse_list_column E (PList [PNone]) = Inr []"
  by (simp add: parse_list_column_def isna_truth_def checknull_def)

subsection \<open>The fallback of the normalizer\<close>

text \<open>
  C3, as the code has it: for a string on which literal parsing fails, the normalizer
  returns the empty sequence when the string is the placeholder \<open>---\<close> or is empty after
  trimming, and otherwise the one-item sequence that holds the string itself, not
  trimmed.
\<close>

theorem parse_list_column_fallback:
  assumes "literal_eval E s = None"
  shows "parse_list_column E (PStr s) =
           Inr (if s = ''---'' \<or> strip s = [] then [] else [PStr s])"
proof (cases "s = []")
  case True
  then show ?thesis by (simp add: parse_list_column_def isna_truth_def checknull_def strip_def)
next
  case False
  then show ?thesis
    using assms by (simp add: parse_list_column_def isna_truth_def checknull_def)
qed

theorem parse_list_column_fallback_witness:
  "literal_eval example_env ''Alice '' = None
   \<and> parse_list_column example_env (PStr ''Alice '') = Inr [PStr ''Alice '']"
proof -
  have h: "literal_eval example_env ''Alice '' = None" by (simp add: example_env_def)
  have "strip ''Alice '' \<noteq> []" by (simp add: strip_def py_isspace_def)
  then show ?thesis using h parse_list_column_fallback [OF h] by simp
qed

text \<open>
  The claim as it is written asks for the trimmed string as the item. On \<open>New York\<close>
  followed by a space, parsing fails and the item that comes back still ends in the
  space. On the placeholder \<open>---\<close> parsing fails too, its trimmed string is not empty,
  and no item comes back.
\<close>

theorem parse_list_column_fallback_untrimmed:
  "literal_eval example_env ''New York '' = None
   \<and> strip ''New York '' = ''New York''
   \<and> parse_list_column example_env (PStr ''New York '') = Inr [PStr ''New York '']
   \<and> parse_list_column example_env (PStr ''New York '') \<noteq> Inr [PStr (strip ''New York '')]
   \<and> literal_eval example_env ''---'' = None
   \<and> strip ''---'' = ''---''
   \<and> parse_list_column example_env (PStr ''---'') = Inr []"
  by (simp add: parse_list_column_def isna_truth_def checknull_def example_env_def
      strip_def py_isspace_def)

subsection \<open>The list merger\<close>

text \<open>
  C4. When the normalizer returns for the primary value (\<open>xs\<close>) and for every secondary
  value (\<open>yss\<close>), \<open>merge_list_columns\<close> returns a list \<open>out\<close> in which no trimmed
  identity occurs twice, whose identities are those of the normalized items except the
  empty one, and each of whose items is the first item of the input with its identity.
\<close>

theorem merge_list_columns_dedup:
  assumes "parse_list_column E main_val = Inr xs"
    and "list_all2 (\<lambda>v ys. parse_list_column E v = Inr ys) other_vals yss"
  shows "\<exists>out. merge_list_columns E main_val other_vals = Inr out
           \<and> distinct (map (item_str E) out)
           \<and> set (map (item_str E) out) = set (map (item_str E) (xs @ concat yss)) - {[]}
           \<and> (\<forall>x\<in>set out. find (\<lambda>y. item_str E y = item_str E x) (xs @ concat yss) = Some x)"
proof -
  let ?items = "xs @ concat yss"
  let ?out = "first_seen (item_str E) {[]} ?items"
  have "merge_list_columns E main_val other_vals = Inr ?out"
    using assms by (rule merge_list_columns_first_seen)
  moreover have "distinct (map (item_str E) ?out)" by (rule first_seen_distinct)
  moreover have "set (map (item_str E) ?out) = set (map (item_str E) ?items) - {[]}"
    using first_seen_keys [of "item_str E" "{[]}" ?items] by (simp only: set_map)
  moreover have "\<forall>x\<in>set ?out. find (\<lambda>y. item_str E y = item_str E x) ?items = Some x"
    using first_seen_find by fast
  ultimately show ?thesis by blast
qed

theorem merge_list_columns_dedup_witness:
  "parse_list_column example_env (PStr ''['Alice']'') = Inr [PStr ''Alice'']
   \<and> list_all2 (\<lambda>v ys. parse_list_column example_env v = Inr ys)
        [PStr ''Bob'', PStr ''Alice '', PStr ''---'']
        [[PStr ''Bob''], [PStr ''Alice ''], []]
   \<and> merge_list_columns example_env (PStr ''['Alice']'')
        [PStr ''Bob'', PStr ''Alice '', PStr ''---''] = Inr [PStr ''Alice'', PStr ''Bob'']
   \<and> distinct (map (item_str example_env) [PStr ''Alice'', PStr ''Bob''])"
proof -
  have h1: "parse_list_column example_env (PStr ''['Alice']'') = Inr [PStr ''Alice'']"
    by (simp add: parse_list_column_def isna_truth_def checknull_def example_env_def)
  have h2: "list_all2 (\<lambda>v ys. parse_list_column example_env v = Inr ys)
        [PStr ''Bob'', PStr ''Alice '', PStr ''---'']
        [[PStr ''Bob''], [PStr ''Alice ''], []]"
    by (simp add: parse_list_column_def isna_truth_def checknull_def example_env_def
        strip_def py_isspace_def)
  have m: "merge_list_columns example_env (PStr ''['Alice']'')
        [PStr ''Bob'', PStr ''Alice '', PStr ''---''] = Inr [PStr ''Alice'', PStr ''Bob'']"
    by (simp add: merge_list_columns_def parse_list_column_def isna_truth_def checknull_def
        example_env_def item_str_def py_str_def strip_def py_isspace_def)
  from merge_list_columns_dedup [OF h1 h2] m
  have "distinct (map (item_str example_env) [PStr ''Alice'', PStr ''Bob''])" by auto
  then show ?thesis using h1 h2 m by blast
qed

text \<open>
  C5. When the normalized items of the primary and of the secondary values have
  pairwise distinct, non-empty trimmed identities, \<open>merge_list_columns\<close> returns the
  primary's items followed by the items of each secondary value, in their order.
\<close>

theorem merge_list_columns_order:
  assumes "parse_list_column E main_val = Inr xs"
    and "list_all2 (\<lambda>v ys. parse_list_column E v = Inr ys) other_vals yss"
    and "distinct (map (item_str E) (xs @ concat yss))"
    and "[] \<notin> set (map (item_str E) (xs @ concat yss))"
  shows "merge_list_columns E main_val other_vals = Inr (xs @ concat yss)"
proof -
  have "item_str E ` set (xs @ concat yss) \<inter> {[]} = {}" using assms(4) by auto
  then have "first_seen (item_str E) {[]} (xs @ concat yss) = xs @ concat yss"
    using assms(3) by (rule first_seen_id [rotated])
  then show ?thesis using merge_list_columns_first_seen [OF assms(1,2)] by simp
qed

theorem merge_list_columns_order_witness:
  "parse_list_column example_env (PStr ''['Alice']'') = Inr [PStr ''Alice'']
   \<and> list_all2 (\<lambda>v ys. parse_list_column example_env v = Inr ys) [PStr ''Bob''] [[PStr ''Bob'']]
   \<and> distinct (map (item_str example_env) ([PStr ''Alice''] @ concat [[PStr ''Bob'']]))
   \<and> [] \<notin> set (map (item_str example_env) ([PStr ''Alice''] @ concat [[PStr ''Bob'']]))
   \<and> merge_list_columns example_env (PStr ''['Alice']'') [PStr ''Bob'']
       = Inr [PStr ''Alice'', PStr ''Bob'']"
proof -
  have h1: "parse_list_column example_env (PStr ''['Alice']'') = Inr [PStr ''Alice'']"
    by (simp add: parse_list_column_def isna_truth_def checknull_def example_env_def)
  have h2: "list_all2 (\<lambda>v ys. parse_list_column example_env v = Inr ys)
        [PStr ''Bob''] [[PStr ''Bob'']]"
    by (simp add: parse_list_column_def isna_truth_def checknull_def example_env_def
        strip_def py_isspace_def)
  have h3: "distinct (map (item_str example_env) ([PStr ''Alice''] @ concat [[PStr ''Bob'']]))"
    by (simp add: item_str_def py_str_def strip_def py_isspace_def)
  have h4: "[] \<notin> set (map (item_str example_env) ([PStr ''Alice''] @ concat [[PStr ''Bob'']]))"
    by (simp add: item_str_def py_str_def strip_def py_isspace_def)
  show ?thesis using h1 h2 h3 h4 merge_list_columns_order [OF h1 h2 h3 h4] by simp
qed

text \<open>
  C8. With no secondary values, \<open>merge_list_columns\<close> returns the empty sequence for
  \<open>None\<close>, for NaN, for the empty string and for the placeholder \<open>---\<close>.
\<close>

theorem merge_list_columns_empty:
  "merge_list_columns E PNone [] = Inr []
   \<and> merge_list_columns E PNaN [] = Inr []
   \<and> merge_list_columns E (PStr '''') [] = Inr []
   \<and> merge_list_columns E (PStr ''---'') [] = Inr []"
  by (simp add: merge_list_columns_def parse_list_column_def isna_truth_def checknull_def)

subsection \<open>The sentiment merger\<close>

text \<open>
  C6. Whenever the test \<open>pd.isna\<close> raises on none of the values,
  \<open>merge_sentiment_columns\<close> returns what \<open>merge_sentiments_spec\<close> describes: the
  missing, empty and \<open>neutral\<close> values skipped, the others split on commas and trimmed,
  the empty and \<open>neutral\<close> pieces dropped, duplicates dropped, the rest joined by a comma
  and a space. The two examples of the specification come out as it says.
\<close>

theorem merge_sentiment_columns_spec:
  "((\<forall>val\<in>set (main_val # other_vals). \<exists>na. isna_truth E val = Inr na) \<longrightarrow>
      merge_sentiment_columns E main_val other_vals =
        Inr (merge_sentiments_spec E (main_val # other_vals)))
   \<and> merge_sentiment_columns E (PStr ''neutral'') [PStr ''neutral''] = Inr ''''
   \<and> merge_sentiment_columns E (PStr ''happy, sad'') [PStr ''sad, joy''] = Inr ''happy, sad, joy''"
proof (intro conjI impI)
  assume a: "\<forall>val\<in>set (main_val # other_vals). \<exists>na. isna_truth E val = Inr na"
  let ?ps = "concat (map (pieces E) (filter (\<lambda>val. \<not> skipped E val) (main_val # other_vals)))"
  let ?r = "first_seen (\<lambda>x. x) {[], ''neutral''} ?ps"
  have r: "?r = dedup (filter (\<lambda>p. p \<noteq> [] \<and> p \<noteq> ''neutral'') ?ps)"
    unfolding dedup_def by (subst first_seen_filter) simp
  have "sentiment_vals E (main_val # other_vals) ([], {}) = Inr (?r, set ?r)"
    using sentiment_vals_pieces [OF a, of "([], {})"]
    by (simp only: sentiment_items_first_seen) simp
  then have "merge_sentiment_columns E main_val other_vals =
      Inr (if ?r \<noteq> [] then join_comma ?r else '''')"
    by (simp only: merge_sentiment_columns_def sum.case prod.case)
  then show "merge_sentiment_columns E main_val other_vals =
        Inr (merge_sentiments_spec E (main_val # other_vals))"
    unfolding merge_sentiments_spec_def r [symmetric] by (cases "?r = []") simp_all
next
  show "merge_sentiment_columns E (PStr ''neutral'') [PStr ''neutral''] = Inr ''''"
    by (rule merge_sentiment_columns_neutral)
next
  show "merge_sentiment_columns E (PStr ''happy, sad'') [PStr ''sad, joy''] = Inr ''happy, sad, joy''"
    by (rule merge_sentiment_columns_happy)
qed

theorem merge_sentiment_columns_spec_witness:
  "merge_sentiment_columns example_env (PStr ''happy, neutral'')
        [PNaN, PStr ''neutral'', PStr '' joy,,happy ''] = Inr ''happy, joy''
   \<and> merge_sentiments_spec example_env
        (PStr ''happy, neutral'' # [PNaN, PStr ''neutral'', PStr '' joy,,happy '']) = ''happy, joy''"
proof -
  have h: "\<forall>val\<in>set (PStr ''happy, neutral'' # [PNaN, PStr ''neutral'', PStr '' joy,,happy '']).
      \<exists>na. isna_truth example_env val = Inr na"
    by (simp add: isna_truth_def)
  have m: "merge_sentiment_columns example_env (PStr ''happy, neutral'')
        [PNaN, PStr ''neutral'', PStr '' joy,,happy ''] = Inr ''happy, joy''"
    by (simp add: merge_sentiment_columns_def isna_truth_def checknull_def py_str_def
        strip_def py_isspace_def)
  show ?thesis
    using h m merge_sentiment_columns_spec
      [of "PStr ''happy, neutral''" "[PNaN, PStr ''neutral'', PStr '' joy,,happy '']" example_env]
    by simp
qed

text \<open>
  C10. When \<open>merge_sentiment_columns\<close> returns the string \<open>out\<close>, merging \<open>out\<close> alone
  returns \<open>out\<close> again.
\<close>

theorem merge_sentiment_columns_idem:
  assumes "merge_sentiment_columns E main_val other_vals = Inr out"
  shows "merge_sentiment_columns E (PStr out) [] = Inr out"
proof -
  obtain result seen where
    st: "sentiment_vals E (main_val # other_vals) ([], {}) = Inr (result, seen)"
    and out: "out = (if result \<noteq> [] then join_comma result else '''')"
    using assms unfolding merge_sentiment_columns_def
    by (auto split: sum.splits prod.splits)
  have "sentiment_inv ([], {})" by (simp add: sentiment_inv_def)
  with st have inv: "sentiment_inv (result, seen)" by (rule sentiment_vals_inv)
  show ?thesis
  proof (cases "result = []")
    case True
    then show ?thesis using out
      by (simp add: merge_sentiment_columns_def isna_truth_PStr)
  next
    case False
    have ok: "\<forall>r\<in>set result. label_ok r" and d: "distinct result"
      using inv by (simp_all add: sentiment_inv_def)
    have ne: "out \<noteq> []" "out \<noteq> ''neutral''"
      using False ok out join_comma_not_Nil [of result] join_comma_not_neutral [of result]
      by (auto simp: label_ok_def)
    have p: "pieces E (PStr out) = result"
      using False ok out pieces_join_comma by simp
    have "set result \<inter> {[], ''neutral''} = {}" using ok by (auto simp: label_ok_def)
    then have "first_seen (\<lambda>x. x) {[], ''neutral''} result = result"
      using d by (intro first_seen_id) simp_all
    then have "sentiment_items result ([], {}) = (result, set result)"
      by (simp add: sentiment_items_first_seen)
    then have "sentiment_vals E [PStr out] ([], {}) = Inr (result, set result)"
      using ne p by (simp add: isna_truth_PStr pieces_def)
    then show ?thesis using False out by (simp add: merge_sentiment_columns_def)
  qed
qed

theorem merge_sentiment_columns_idem_witness:
  "merge_sentiment_columns example_env (PStr ''happy, sad'') [PStr ''sad, joy'']
     = Inr ''happy, sad, joy''
   \<and> merge_sentiment_columns example_env (PStr ''happy, sad, joy'') [] = Inr ''happy, sad, joy''"
proof -
  have h: "merge_sentiment_columns example_env (PStr ''happy, sad'') [PStr ''sad, joy'']
     = Inr ''happy, sad, joy''"
    by (simp add: merge_sentiment_columns_def isna_truth_def checknull_def py_str_def
        strip_def py_isspace_def)
  show ?thesis using h merge_sentiment_columns_idem [OF h] by simp
qed

subsection \<open>The orchestration loop\<close>


end
